theory Spec2Isabelle
  imports Main "HOL-Library.AList" "HOL-Library.Word"
begin

section \<open>Ubuntu image fetcher: the download, validation and duplicate pipeline\<close>

text \<open>
  A shallow embedding of \<^verbatim>\<open>answer.py\<close>. Library calls whose results the program
  only consumes (the HTTP exchange, \<^verbatim>\<open>urlparse\<close>, \<^verbatim>\<open>mimetypes.guess_extension\<close>,
  the clock, SHA-256 and faults of the operating system) are fields of an environment
  record. The file system is an association list from paths to file contents; only
  regular files are represented. Exceptions are values: every function that can raise
  returns a sum whose left injection is the exception.
\<close>

subsection \<open>Exceptions, console output, responses\<close>

datatype exn = RequestException | ValueError | OSError | UnboundLocalError

text \<open>One constructor for each \<^verbatim>\<open>print\<close> of \<^verbatim>\<open>download_image\<close>, with the
  values it interpolates.\<close>

datatype msg =
    InvalidContentType string string
  | FileTooLarge string "string option"
  | DuplicateImage string
  | Fetched string
  | SavedTo string
  | NetworkError string exn
  | ProcessingError string exn

type_synonym bytes = "8 word list"

text \<open>What \<^verbatim>\<open>requests.get(..., stream=True)\<close> hands back: the status, the two headers
  the program reads (absent headers are \<open>None\<close>), the chunks \<^verbatim>\<open>iter_content\<close> yields,
  and whether the stream breaks with a \<^verbatim>\<open>RequestException\<close> after those chunks.\<close>

record response =
  status_code :: nat
  content_type_hdr :: "string option"
  content_length_hdr :: "string option"
  chunks :: "bytes list"
  stream_broken :: bool

datatype fetch = ConnectionFailed | Response response

datatype fs_op =
    OpOpenWrite string
  | OpWrite string
  | OpRead string
  | OpRemove string
  | OpRename string string

record env =
  http_get :: "string \<Rightarrow> fetch"
  url_path :: "string \<Rightarrow> string"
  guess_extension :: "string \<Rightarrow> string option"
  now_stamp :: string
  sha256_hex :: "bytes \<Rightarrow> string"
  io_fault :: "fs_op \<Rightarrow> bool"

type_synonym fsys = "(string \<times> bytes) list"

text \<open>The mutable world of one run: the files, the set \<^verbatim>\<open>existing_hashes\<close> (passed by
  reference in the source, threaded here) and the lines printed so far.\<close>

record state =
  files :: fsys
  hashes :: "string set"
  log :: "msg list"

subsection \<open>Strings\<close>

text \<open>\<^verbatim>\<open>str.lower\<close> on the characters a header can hold (Latin-1).\<close>

definition lower_char :: "char \<Rightarrow> char" where
  "lower_char c =
     (let n = (of_char c :: nat)
      in if (65 \<le> n \<and> n \<le> 90) \<or> (192 \<le> n \<and> n \<le> 222 \<and> n \<noteq> 215)
         then char_of (n + 32) else c)"

definition str_lower :: "string \<Rightarrow> string" where
  "str_lower s = map lower_char s"

definition valid_types :: "string list" where
  "valid_types = [''image/jpeg'', ''image/png'', ''image/gif'', ''image/bmp'']"

definition is_valid_image_content_type :: "string \<Rightarrow> bool" where
  "is_valid_image_content_type content_type = (str_lower content_type \<in> set valid_types)"

text \<open>\<^verbatim>\<open>int(s)\<close> for a string: surrounding whitespace is dropped, one sign is allowed,
  then decimal digits, where single underscores may separate digits. Anything else is a
  \<^verbatim>\<open>ValueError\<close>, here \<open>None\<close>. The whitespace \<^verbatim>\<open>int\<close> skips is narrower than that of
  \<^verbatim>\<open>str.strip\<close>: the ASCII blanks 9 to 13 and 32, and of Latin-1 the code points 133
  and 160; the separators 28 to 31 are not skipped and make \<^verbatim>\<open>int\<close> raise.\<close>

definition py_isspace :: "char \<Rightarrow> bool" where
  "py_isspace c =
     (let n = (of_char c :: nat)
      in (9 \<le> n \<and> n \<le> 13) \<or> n = 32 \<or> n = 133 \<or> n = 160)"

definition py_strip :: "string \<Rightarrow> string" where
  "py_strip s = rev (dropWhile py_isspace (rev (dropWhile py_isspace s)))"

definition is_digit :: "char \<Rightarrow> bool" where
  "is_digit c = (let n = (of_char c :: nat) in 48 \<le> n \<and> n \<le> 57)"

definition digit_val :: "char \<Rightarrow> int" where
  "digit_val c = int (of_char c) - 48"

fun digit_groups_ok :: "string \<Rightarrow> bool" where
  "digit_groups_ok [] = False"
| "digit_groups_ok [c] = is_digit c"
| "digit_groups_ok (c # d # cs) =
     (if is_digit c
      then (if d = CHR ''_'' then digit_groups_ok cs else digit_groups_ok (d # cs))
      else False)"

definition digits_value :: "string \<Rightarrow> int" where
  "digits_value s = foldl (\<lambda>a c. 10 * a + digit_val c) 0 (filter is_digit s)"

text \<open>The interpreter refuses to convert more digits than \<^verbatim>\<open>sys.int_max_str_digits\<close>,
  4300 unless reconfigured, which the program does not do. Underscores and the sign
  are not counted; leading zeros are.\<close>

definition int_max_str_digits :: nat where
  "int_max_str_digits = 4300"

definition py_unsigned :: "string \<Rightarrow> int option" where
  "py_unsigned s =
     (if digit_groups_ok s \<and> length (filter is_digit s) \<le> int_max_str_digits
      then Some (digits_value s) else None)"

definition py_int :: "string \<Rightarrow> int option" where
  "py_int s =
     (case py_strip s of
        [] \<Rightarrow> None
      | c # r \<Rightarrow>
          if c = CHR ''-'' then map_option uminus (py_unsigned r)
          else if c = CHR ''+'' then py_unsigned r
          else py_unsigned (c # r))"

text \<open>\<^verbatim>\<open>os.path.basename\<close> and \<^verbatim>\<open>os.path.join\<close> (POSIX).\<close>

definition basename :: "string \<Rightarrow> string" where
  "basename p = rev (takeWhile (\<lambda>c. c \<noteq> CHR ''/'') (rev p))"

definition path_join :: "string \<Rightarrow> string \<Rightarrow> string" where
  "path_join a b =
     (if b \<noteq> [] \<and> hd b = CHR ''/'' then b
      else if a = [] \<or> last a = CHR ''/'' then a @ b
      else a @ ''/'' @ b)"

subsection \<open>File system\<close>

definition os_path_exists :: "string \<Rightarrow> fsys \<Rightarrow> bool" where
  "os_path_exists p fs = (map_of fs p \<noteq> None)"

definition os_path_isfile :: "string \<Rightarrow> fsys \<Rightarrow> bool" where
  "os_path_isfile p fs = (map_of fs p \<noteq> None)"

definition os_remove :: "env \<Rightarrow> string \<Rightarrow> fsys \<Rightarrow> exn + fsys" where
  "os_remove e p fs =
     (if io_fault e (OpRemove p) \<or> map_of fs p = None then Inl OSError
      else Inr (AList.delete p fs))"

text \<open>\<^verbatim>\<open>os.rename\<close>: one step that takes the source away and puts its contents at the
  destination, replacing a file already there.\<close>

definition os_rename :: "env \<Rightarrow> string \<Rightarrow> string \<Rightarrow> fsys \<Rightarrow> exn + fsys" where
  "os_rename e src dst fs =
     (case map_of fs src of
        None \<Rightarrow> Inl OSError
      | Some content \<Rightarrow>
          if io_fault e (OpRename src dst) then Inl OSError
          else Inr (AList.update dst content (AList.delete src fs)))"

text \<open>\<^verbatim>\<open>open(p, 'wb')\<close> creates or truncates.\<close>

definition open_wb :: "env \<Rightarrow> string \<Rightarrow> fsys \<Rightarrow> exn + fsys" where
  "open_wb e p fs =
     (if io_fault e (OpOpenWrite p) then Inl OSError else Inr (AList.update p [] fs))"

definition file_write :: "env \<Rightarrow> string \<Rightarrow> bytes \<Rightarrow> fsys \<Rightarrow> exn + fsys" where
  "file_write e p chunk fs =
     (if io_fault e (OpWrite p) then Inl OSError
      else Inr (AList.update p ((case map_of fs p of None \<Rightarrow> [] | Some old \<Rightarrow> old) @ chunk) fs))"

text \<open>The loop \<^verbatim>\<open>for chunk in response.iter_content(...): f.write(chunk)\<close>. The file
  system is returned also when an exception leaves the loop: what was written stays.\<close>

fun write_chunks :: "env \<Rightarrow> string \<Rightarrow> bytes list \<Rightarrow> fsys \<Rightarrow> exn option \<times> fsys" where
  "write_chunks e p [] fs = (None, fs)"
| "write_chunks e p (c # cs) fs =
     (case file_write e p c fs of
        Inl x \<Rightarrow> (Some x, fs)
      | Inr fs' \<Rightarrow> write_chunks e p cs fs')"

definition stage_body :: "env \<Rightarrow> string \<Rightarrow> response \<Rightarrow> fsys \<Rightarrow> exn option \<times> fsys" where
  "stage_body e p r fs =
     (case open_wb e p fs of
        Inl x \<Rightarrow> (Some x, fs)
      | Inr fs1 \<Rightarrow>
          (case write_chunks e p (chunks r) fs1 of
             (Some x, fs2) \<Rightarrow> (Some x, fs2)
           | (None, fs2) \<Rightarrow>
               if stream_broken r then (Some RequestException, fs2) else (None, fs2)))"

subsection \<open>Hashing a file\<close>

text \<open>\<^verbatim>\<open>iter(lambda: f.read(4096), b"")\<close>: blocks of 4096 bytes until the empty read.\<close>

function read_blocks :: "bytes \<Rightarrow> bytes list" where
  "read_blocks bs = (if bs = [] then [] else take 4096 bs # read_blocks (drop 4096 bs))"
  by pat_completeness auto
termination
  by (relation "measure length") auto

declare read_blocks.simps [simp del]

text \<open>The hash object accumulates what \<^verbatim>\<open>update\<close> is fed; \<^verbatim>\<open>hexdigest\<close> is the
  digest of all of it.\<close>

definition sha256_update :: "bytes \<Rightarrow> bytes \<Rightarrow> bytes" where
  "sha256_update fed block = fed @ block"

definition calculate_file_hash :: "env \<Rightarrow> string \<Rightarrow> fsys \<Rightarrow> exn + string" where
  "calculate_file_hash e filepath fs =
     (if io_fault e (OpRead filepath) then Inl OSError
      else case map_of fs filepath of
             None \<Rightarrow> Inl OSError
           | Some content \<Rightarrow>
               Inr (sha256_hex e (foldl sha256_update [] (read_blocks content))))"

subsection \<open>One download\<close>

text \<open>Lines 47 to 54: the name under which the image is kept.\<close>

definition choose_filename :: "env \<Rightarrow> string \<Rightarrow> string \<Rightarrow> string" where
  "choose_filename e url content_type =
     (let filename = basename (url_path e url);
          guessed = guess_extension e content_type
      in if filename = [] \<or> guessed = None \<or> guessed = Some []
         then ''image_'' @ now_stamp e @
              (case guessed of None \<Rightarrow> ''.jpg'' | Some x \<Rightarrow> if x = [] then ''.jpg'' else x)
         else filename)"

text \<open>Lines 56 to 77, entered once \<^verbatim>\<open>filename\<close> is known. The second component of
  the result is the binding of the local \<^verbatim>\<open>temp_filepath\<close>, which the handler reads.\<close>

definition stage_and_commit ::
  "env \<Rightarrow> string \<Rightarrow> response \<Rightarrow> string \<Rightarrow> state \<Rightarrow> (exn + bool) \<times> string option \<times> state" where
  "stage_and_commit e output_dir r filename st =
     (let filepath = path_join output_dir filename;
          temp_filepath = filepath @ ''.tmp''
      in case stage_body e temp_filepath r (files st) of
           (Some x, fs1) \<Rightarrow> (Inl x, Some temp_filepath, st\<lparr>files := fs1\<rparr>)
         | (None, fs1) \<Rightarrow>
             (case calculate_file_hash e temp_filepath fs1 of
                Inl x \<Rightarrow> (Inl x, Some temp_filepath, st\<lparr>files := fs1\<rparr>)
              | Inr file_hash \<Rightarrow>
                  if file_hash \<in> hashes st
                  then (case os_remove e temp_filepath fs1 of
                          Inl x \<Rightarrow> (Inl x, Some temp_filepath, st\<lparr>files := fs1\<rparr>)
                        | Inr fs2 \<Rightarrow>
                            (Inr False, Some temp_filepath,
                             st\<lparr>files := fs2, log := log st @ [DuplicateImage filename]\<rparr>))
                  else (case os_rename e temp_filepath filepath fs1 of
                          Inl x \<Rightarrow> (Inl x, Some temp_filepath, st\<lparr>files := fs1\<rparr>)
                        | Inr fs2 \<Rightarrow>
                            (Inr True, Some temp_filepath,
                             st\<lparr>files := fs2, hashes := insert file_hash (hashes st),
                                log := log st @ [Fetched filename, SavedTo filepath]\<rparr>))))"

text \<open>\<^verbatim>\<open>response.headers.get('content-type', '')\<close>.\<close>

definition declared_content_type :: "response \<Rightarrow> string" where
  "declared_content_type r = (case content_type_hdr r of None \<Rightarrow> [] | Some s \<Rightarrow> s)"

text \<open>The condition of line 43, \<^verbatim>\<open>content_length and int(content_length) > 10 * 1024 * 1024\<close>:
  an absent or empty header never reaches \<^verbatim>\<open>int\<close>; another one may make it raise.\<close>

definition declared_too_large :: "response \<Rightarrow> exn + bool" where
  "declared_too_large r =
     (case content_length_hdr r of
        None \<Rightarrow> Inr False
      | Some content_length \<Rightarrow>
          if content_length = [] then Inr False
          else (case py_int content_length of
                  None \<Rightarrow> Inl ValueError
                | Some n \<Rightarrow> Inr (n > 10 * 1024 * 1024)))"

text \<open>The body of the \<^verbatim>\<open>try\<close>, lines 24 to 77. \<^verbatim>\<open>raise_for_status\<close> raises for the
  statuses 400 to 599.\<close>

definition try_body ::
  "env \<Rightarrow> string \<Rightarrow> string \<Rightarrow> state \<Rightarrow> (exn + bool) \<times> string option \<times> state" where
  "try_body e url output_dir st =
     (case http_get e url of
        ConnectionFailed \<Rightarrow> (Inl RequestException, None, st)
      | Response r \<Rightarrow>
          if 400 \<le> status_code r \<and> status_code r < 600 then (Inl RequestException, None, st)
          else
            let content_type = declared_content_type r
            in if \<not> is_valid_image_content_type content_type
               then (Inr False, None, st\<lparr>log := log st @ [InvalidContentType url content_type]\<rparr>)
               else
                 (case declared_too_large r of
                    Inl x \<Rightarrow> (Inl x, None, st)
                  | Inr True \<Rightarrow>
                      (Inr False, None,
                       st\<lparr>log := log st @ [FileTooLarge url (content_length_hdr r)]\<rparr>)
                  | Inr False \<Rightarrow>
                      stage_and_commit e output_dir r (choose_filename e url content_type) st))"

text \<open>The two handlers, lines 79 to 86. The first returns at once. The second reads
  \<^verbatim>\<open>temp_filepath\<close>: reading it unbound raises \<^verbatim>\<open>UnboundLocalError\<close>, and an exception of
  \<^verbatim>\<open>os.remove\<close> leaves the function, as nothing encloses the handler.\<close>

definition download_image :: "env \<Rightarrow> string \<Rightarrow> string \<Rightarrow> state \<Rightarrow> (exn + bool) \<times> state" where
  "download_image e url output_dir st =
     (case try_body e url output_dir st of
        (Inr b, _, st1) \<Rightarrow> (Inr b, st1)
      | (Inl x, tmp, st1) \<Rightarrow>
          if x = RequestException
          then (Inr False, st1\<lparr>log := log st1 @ [NetworkError url x]\<rparr>)
          else
            let st2 = st1\<lparr>log := log st1 @ [ProcessingError url x]\<rparr>
            in (case tmp of
                  None \<Rightarrow> (Inl UnboundLocalError, st2)
                | Some temp_filepath \<Rightarrow>
                    if os_path_exists temp_filepath (files st2)
                    then (case os_remove e temp_filepath (files st2) of
                            Inl y \<Rightarrow> (Inl y, st2)
                          | Inr fs \<Rightarrow> (Inr False, st2\<lparr>files := fs\<rparr>))
                    else (Inr False, st2)))"

subsection \<open>The run\<close>

text \<open>\<^verbatim>\<open>os.listdir(output_dir)\<close>: the names of the files lying directly in the
  directory.\<close>

definition os_listdir :: "string \<Rightarrow> fsys \<Rightarrow> string list" where
  "os_listdir d fs =
     remdups (filter (\<lambda>n. n \<noteq> [] \<and> map_of fs (path_join d n) \<noteq> None)
                     (map (\<lambda>(p, _). basename p) fs))"

text \<open>Lines 98 to 102. An exception of \<^verbatim>\<open>calculate_file_hash\<close> is not caught in
  \<^verbatim>\<open>main\<close>.\<close>

fun load_hashes :: "env \<Rightarrow> string \<Rightarrow> fsys \<Rightarrow> string list \<Rightarrow> string set \<Rightarrow> exn + string set" where
  "load_hashes e output_dir fs [] existing = Inr existing"
| "load_hashes e output_dir fs (filename # rest) existing =
     (let filepath = path_join output_dir filename
      in if os_path_isfile filepath fs
         then (case calculate_file_hash e filepath fs of
                 Inl x \<Rightarrow> Inl x
               | Inr h \<Rightarrow> load_hashes e output_dir fs rest (insert h existing))
         else load_hashes e output_dir fs rest existing)"

definition load_existing_hashes :: "env \<Rightarrow> string \<Rightarrow> fsys \<Rightarrow> exn + string set" where
  "load_existing_hashes e output_dir fs = load_hashes e output_dir fs (os_listdir output_dir fs) {}"

text \<open>Lines 121 to 124: the URLs in order, counting the successes. An exception that
  leaves \<^verbatim>\<open>download_image\<close> ends the loop.\<close>

fun download_all ::
  "env \<Rightarrow> string \<Rightarrow> string list \<Rightarrow> nat \<Rightarrow> state \<Rightarrow> (exn + nat) \<times> state" where
  "download_all e output_dir [] success_count st = (Inr success_count, st)"
| "download_all e output_dir (url # urls) success_count st =
     (case download_image e url output_dir st of
        (Inl x, st1) \<Rightarrow> (Inl x, st1)
      | (Inr b, st1) \<Rightarrow>
          download_all e output_dir urls (if b then success_count + 1 else success_count) st1)"

subsection \<open>Vocabulary of the statements\<close>

text \<open>A response that passes every check before staging: the request succeeded, the
  status does not make \<^verbatim>\<open>raise_for_status\<close> raise, the declared type is allowed and the
  declared length neither raises nor exceeds the limit.\<close>

definition admitted :: "env \<Rightarrow> string \<Rightarrow> response \<Rightarrow> bool" where
  "admitted e url r =
     (http_get e url = Response r \<and> \<not> (400 \<le> status_code r \<and> status_code r < 600) \<and>
      is_valid_image_content_type (declared_content_type r) \<and> declared_too_large r = Inr False)"

text \<open>The body arrives whole and the temporary file is opened, written and read back
  without an error of the operating system.\<close>

definition staged_cleanly :: "env \<Rightarrow> response \<Rightarrow> string \<Rightarrow> bool" where
  "staged_cleanly e r temp_filepath =
     (\<not> io_fault e (OpOpenWrite temp_filepath) \<and> \<not> io_fault e (OpWrite temp_filepath) \<and>
      \<not> stream_broken r \<and> \<not> io_fault e (OpRead temp_filepath))"

text \<open>The specification's "compared case-insensitively": equal once both sides are
  lowercased.\<close>

definition ci_equal :: "string \<Rightarrow> string \<Rightarrow> bool" where
  "ci_equal a b = (str_lower a = str_lower b)"

text \<open>The specification's rule for the final name: the base name of the URL's path when
  it is not empty and an extension can be inferred from the declared type; otherwise
  \<^verbatim>\<open>image_\<close>, the time stamp and that extension, \<^verbatim>\<open>.jpg\<close> when none is known.\<close>

definition spec_filename :: "env \<Rightarrow> string \<Rightarrow> string \<Rightarrow> string" where
  "spec_filename e url content_type =
     (let base = basename (url_path e url);
          ext = guess_extension e content_type;
          inferred = (ext \<noteq> None \<and> ext \<noteq> Some [])
      in if base \<noteq> [] \<and> inferred then base
         else ''image_'' @ now_stamp e @
              (if inferred then (case ext of None \<Rightarrow> [] | Some x \<Rightarrow> x) else ''.jpg''))"

subsection \<open>Concrete runs\<close>

text \<open>A server that answers every URL of \<^verbatim>\<open>https://example.com\<close> with the same four
  bytes declared as PNG, a file system without faults, and a stand-in digest. The path of
  such a URL is what follows the nineteen characters of scheme and host.\<close>

definition demo_digest :: "bytes \<Rightarrow> string" where
  "demo_digest bs = replicate (length bs) CHR ''a''"

definition cat_url :: string where
  "cat_url = ''https://example.com/cat.png''"

definition tmp_url :: string where
  "tmp_url = ''https://example.com/cat.png.tmp''"

definition cat_response :: response where
  "cat_response =
     \<lparr>status_code = 200, content_type_hdr = Some ''image/png'',
      content_length_hdr = Some ''2000'', chunks = [[137, 80], [78, 71]],
      stream_broken = False\<rparr>"

definition cat_env :: env where
  "cat_env =
     \<lparr>http_get = (\<lambda>u. Response cat_response),
      url_path = drop 19,
      guess_extension = (\<lambda>t. if str_lower t = ''image/png'' then Some ''.png'' else None),
      now_stamp = ''20240101_120000'',
      sha256_hex = demo_digest,
      io_fault = (\<lambda>op. False)\<rparr>"

definition empty_state :: state where
  "empty_state = \<lparr>files = [], hashes = {}, log = []\<rparr>"

text \<open>The state after \<^verbatim>\<open>cat.png.tmp\<close> was fetched, and the state after \<^verbatim>\<open>cat.png\<close>
  was.\<close>

definition kept_state :: state where
  "kept_state =
     \<lparr>files = [(''Fetched_Images/cat.png.tmp'', [137, 80, 78, 71])], hashes = {''aaaa''},
      log = [Fetched ''cat.png.tmp'', SavedTo ''Fetched_Images/cat.png.tmp'']\<rparr>"

definition cat_state :: state where
  "cat_state =
     \<lparr>files = [(''Fetched_Images/cat.png'', [137, 80, 78, 71])], hashes = {''aaaa''},
      log = [Fetched ''cat.png'', SavedTo ''Fetched_Images/cat.png'']\<rparr>"

text \<open>Variants of the server: a web page that declares twenty million bytes, an image
  that declares twenty million bytes, an image whose length header is not a number, a
  body that breaks off after its chunks, and a URL without a file name.\<close>

definition html_response :: response where
  "html_response =
     cat_response\<lparr>content_type_hdr := Some ''text/html'', content_length_hdr := Some ''20000000''\<rparr>"

definition html_env :: env where
  "html_env = cat_env\<lparr>http_get := (\<lambda>u. Response html_response)\<rparr>"

definition large_response :: response where
  "large_response = cat_response\<lparr>content_length_hdr := Some ''20000000''\<rparr>"

definition large_env :: env where
  "large_env = cat_env\<lparr>http_get := (\<lambda>u. Response large_response)\<rparr>"

definition badlen_response :: response where
  "badlen_response = cat_response\<lparr>content_length_hdr := Some ''abc''\<rparr>"

definition badlen_env :: env where
  "badlen_env = cat_env\<lparr>http_get := (\<lambda>u. Response badlen_response)\<rparr>"

definition broken_response :: response where
  "broken_response = cat_response\<lparr>stream_broken := True\<rparr>"

definition broken_env :: env where
  "broken_env = cat_env\<lparr>http_get := (\<lambda>u. Response broken_response)\<rparr>"

definition old_files :: fsys where
  "old_files = [(''Fetched_Images/A'', [1, 2, 3, 4])]"


subsection \<open>Auxiliary facts\<close>

lemma read_blocks_concat: "concat (read_blocks bs) = bs"
proof (induction bs rule: read_blocks.induct)
  case (1 bs)
  show ?case
  proof (cases "bs = []")
    case True then show ?thesis by (simp add: read_blocks.simps)
  next
    case False
    have "concat (read_blocks bs) = take 4096 bs @ concat (read_blocks (drop 4096 bs))"
      using False by (subst read_blocks.simps) simp
    also have "\<dots> = take 4096 bs @ drop 4096 bs" using 1 False by simp
    finally show ?thesis by simp
  qed
qed

lemma foldl_sha256_update: "foldl sha256_update fed blocks = fed @ concat blocks"
  by (induction blocks arbitrary: fed) (simp_all add: sha256_update_def)

lemma calculate_file_hash_ok:
  "\<not> io_fault e (OpRead p) \<Longrightarrow> map_of fs p = Some content \<Longrightarrow>
   calculate_file_hash e p fs = Inr (sha256_hex e content)"
  by (simp add: calculate_file_hash_def foldl_sha256_update read_blocks_concat)

lemma calculate_file_hash_Inr:
  "calculate_file_hash e p fs = Inr h \<Longrightarrow>
   \<exists>content. map_of fs p = Some content \<and> h = sha256_hex e content \<and> \<not> io_fault e (OpRead p)"
  by (auto simp: calculate_file_hash_def foldl_sha256_update read_blocks_concat split: if_splits option.splits)

lemma write_chunks_None:
  "write_chunks e p cs (AList.update p c0 fs) = (None, fs') \<Longrightarrow>
   fs' = AList.update p (c0 @ concat cs) fs"
proof (induction cs arbitrary: c0 fs')
  case Nil then show ?case by simp
next
  case (Cons c cs)
  from Cons.prems have nf: "\<not> io_fault e (OpWrite p)"
    and w: "write_chunks e p cs (AList.update p (c0 @ c) fs) = (None, fs')"
    by (auto simp: file_write_def update_conv' split: if_splits)
  from Cons.IH [OF w] show ?case by simp
qed

lemma write_chunks_ok:
  "\<not> io_fault e (OpWrite p) \<Longrightarrow>
   write_chunks e p cs (AList.update p c0 fs) = (None, AList.update p (c0 @ concat cs) fs)"
  by (induction cs arbitrary: c0) (simp_all add: file_write_def update_conv')

lemma stage_body_None:
  "stage_body e p r fs = (None, fs1) \<Longrightarrow>
   fs1 = AList.update p (concat (chunks r)) fs \<and> \<not> stream_broken r \<and> \<not> io_fault e (OpOpenWrite p)"
  by (auto simp: stage_body_def open_wb_def split: if_splits prod.splits option.splits dest: write_chunks_None)

lemma stage_body_ok:
  "\<not> io_fault e (OpOpenWrite p) \<Longrightarrow> \<not> io_fault e (OpWrite p) \<Longrightarrow> \<not> stream_broken r \<Longrightarrow>
   stage_body e p r fs = (None, AList.update p (concat (chunks r)) fs)"
  by (simp add: stage_body_def open_wb_def write_chunks_ok)

lemma write_chunks_fst:
  "fst (write_chunks e p cs fs) = None \<longleftrightarrow> cs = [] \<or> \<not> io_fault e (OpWrite p)"
  by (induction cs arbitrary: fs) (auto simp: file_write_def)

lemma write_chunks_None_any:
  assumes "write_chunks e p cs fs = (None, fs1)"
  shows "write_chunks e p cs (AList.update p c0 fs') = (None, AList.update p (c0 @ concat cs) fs')"
proof (cases "cs = []")
  case True then show ?thesis by simp
next
  case False
  with assms write_chunks_fst [of e p cs fs] have "\<not> io_fault e (OpWrite p)" by simp
  then show ?thesis by (rule write_chunks_ok)
qed

lemma stage_body_None_any:
  assumes "stage_body e p r fs = (None, fs1)"
  shows "stage_body e p r fs' = (None, AList.update p (concat (chunks r)) fs')"
proof -
  from assms have o: "\<not> io_fault e (OpOpenWrite p)" and s: "\<not> stream_broken r"
    by (auto dest: stage_body_None)
  from assms o obtain fs2 where "write_chunks e p (chunks r) (AList.update p [] fs) = (None, fs2)"
    by (auto simp: stage_body_def open_wb_def split: prod.splits option.splits if_splits)
  then have "write_chunks e p (chunks r) (AList.update p [] fs') =
             (None, AList.update p ([] @ concat (chunks r)) fs')"
    by (rule write_chunks_None_any)
  with o s show ?thesis by (simp add: stage_body_def open_wb_def)
qed

lemma temp_neq_final: "filepath @ ''.tmp'' \<noteq> filepath"
  by simp

lemma stage_and_commit_dup:
  assumes "stage_body e (path_join od fn @ ''.tmp'') r (files st) = (None, fs1)"
    and "\<not> io_fault e (OpRead (path_join od fn @ ''.tmp''))"
    and "\<not> io_fault e (OpRemove (path_join od fn @ ''.tmp''))"
    and "sha256_hex e (concat (chunks r)) \<in> hashes st"
  shows "stage_and_commit e od r fn st =
           (Inr False, Some (path_join od fn @ ''.tmp''),
            st\<lparr>files := AList.delete (path_join od fn @ ''.tmp'') (files st),
               log := log st @ [DuplicateImage fn]\<rparr>)"
proof -
  let ?t = "path_join od fn @ ''.tmp''"
  from assms(1) have fs1: "fs1 = AList.update ?t (concat (chunks r)) (files st)"
    by (auto dest: stage_body_None)
  have h: "calculate_file_hash e ?t fs1 = Inr (sha256_hex e (concat (chunks r)))"
    using assms(2) by (intro calculate_file_hash_ok) (simp_all add: fs1 update_conv')
  have rm: "os_remove e ?t fs1 = Inr (AList.delete ?t (files st))"
    using assms(3) by (simp add: os_remove_def fs1 update_conv' delete_update_same)
  show ?thesis
    using assms(1,4) h rm by (simp add: stage_and_commit_def Let_def)
qed

lemma stage_and_commit_new:
  assumes "stage_body e (path_join od fn @ ''.tmp'') r (files st) = (None, fs1)"
    and "\<not> io_fault e (OpRead (path_join od fn @ ''.tmp''))"
    and "\<not> io_fault e (OpRename (path_join od fn @ ''.tmp'') (path_join od fn))"
    and "sha256_hex e (concat (chunks r)) \<notin> hashes st"
  shows "stage_and_commit e od r fn st =
           (Inr True, Some (path_join od fn @ ''.tmp''),
            st\<lparr>files := AList.update (path_join od fn) (concat (chunks r))
                          (AList.delete (path_join od fn @ ''.tmp'') (files st)),
               hashes := insert (sha256_hex e (concat (chunks r))) (hashes st),
               log := log st @ [Fetched fn, SavedTo (path_join od fn)]\<rparr>)"
proof -
  let ?t = "path_join od fn @ ''.tmp''"
  from assms(1) have fs1: "fs1 = AList.update ?t (concat (chunks r)) (files st)"
    by (auto dest: stage_body_None)
  have h: "calculate_file_hash e ?t fs1 = Inr (sha256_hex e (concat (chunks r)))"
    using assms(2) by (intro calculate_file_hash_ok) (simp_all add: fs1 update_conv')
  have rn: "os_rename e ?t (path_join od fn) fs1 =
            Inr (AList.update (path_join od fn) (concat (chunks r)) (AList.delete ?t (files st)))"
    using assms(3) by (simp add: os_rename_def fs1 update_conv' delete_update_same)
  show ?thesis
    using assms(1,4) h rn by (simp add: stage_and_commit_def Let_def)
qed

lemma stage_and_commit_True:
  assumes "stage_and_commit e od r fn st = (Inr True, tmp, st')"
  shows "(\<exists>fs1. stage_body e (path_join od fn @ ''.tmp'') r (files st) = (None, fs1)) \<and>
         \<not> io_fault e (OpRead (path_join od fn @ ''.tmp'')) \<and>
         \<not> io_fault e (OpRename (path_join od fn @ ''.tmp'') (path_join od fn)) \<and>
         sha256_hex e (concat (chunks r)) \<notin> hashes st"
proof -
  let ?t = "path_join od fn @ ''.tmp''"
  from assms obtain fs1 where sb: "stage_body e ?t r (files st) = (None, fs1)"
    by (auto simp: stage_and_commit_def Let_def split: prod.splits option.splits)
  then have fs1: "fs1 = AList.update ?t (concat (chunks r)) (files st)"
    by (auto dest: stage_body_None)
  from assms sb obtain h where h: "calculate_file_hash e ?t fs1 = Inr h"
    by (auto simp: stage_and_commit_def Let_def split: sum.splits)
  then have hv: "h = sha256_hex e (concat (chunks r))" and rd: "\<not> io_fault e (OpRead ?t)"
    by (auto dest!: calculate_file_hash_Inr simp: fs1 update_conv')
  from assms sb h have nin: "h \<notin> hashes st"
    by (auto simp: stage_and_commit_def Let_def split: sum.splits if_splits)
  from assms sb h nin have "\<not> io_fault e (OpRename ?t (path_join od fn))"
    by (auto simp: stage_and_commit_def Let_def os_rename_def split: sum.splits if_splits option.splits)
  with sb rd nin hv show ?thesis by blast
qed

lemma try_body_admitted:
  "admitted e url r \<Longrightarrow>
   try_body e url od st = stage_and_commit e od r (choose_filename e url (declared_content_type r)) st"
  by (auto simp: admitted_def try_body_def Let_def)

lemma try_body_True:
  assumes "try_body e url od st = (Inr True, tmp, st')"
  shows "\<exists>r. admitted e url r"
  using assms
  by (auto simp: try_body_def admitted_def Let_def split: fetch.splits if_splits sum.splits bool.splits)

lemma download_image_Inr:
  "try_body e url od st = (Inr b, tmp, st') \<Longrightarrow> download_image e url od st = (Inr b, st')"
  by (simp add: download_image_def)

lemma download_image_True:
  assumes "download_image e url od st = (Inr True, st')"
  shows "\<exists>tmp. try_body e url od st = (Inr True, tmp, st')"
  using assms
  by (auto simp: download_image_def Let_def split: prod.splits sum.splits if_splits option.splits)

lemmas string_evals =
  is_valid_image_content_type_def str_lower_def lower_char_def valid_types_def char_of_eq_iff
  py_int_def py_strip_def py_isspace_def py_unsigned_def int_max_str_digits_def is_digit_def
  digits_value_def
  digit_val_def basename_def path_join_def

lemmas demo_defs =
  cat_env_def cat_response_def cat_url_def tmp_url_def empty_state_def kept_state_def
  cat_state_def html_response_def html_env_def large_response_def large_env_def
  badlen_response_def badlen_env_def broken_response_def broken_env_def old_files_def
  demo_digest_def

lemmas run_evals =
  download_image_def try_body_def Let_def declared_content_type_def declared_too_large_def
  stage_and_commit_def choose_filename_def stage_body_def open_wb_def file_write_def
  calculate_file_hash_ok os_rename_def os_remove_def os_path_exists_def

lemma is_valid_image_content_type_empty: "\<not> is_valid_image_content_type []"
  by (simp add: is_valid_image_content_type_def str_lower_def valid_types_def)

lemma str_lower_valid_types: "t \<in> set valid_types \<Longrightarrow> str_lower t = t"
  by (auto simp: valid_types_def str_lower_def lower_char_def)

lemma download_image_invalid_type:
  assumes "http_get e url = Response r"
    and "\<not> (400 \<le> status_code r \<and> status_code r < 600)"
    and "\<not> is_valid_image_content_type (declared_content_type r)"
  shows "download_image e url od st =
           (Inr False, st\<lparr>log := log st @ [InvalidContentType url (declared_content_type r)]\<rparr>)"
  using assms by (auto simp: download_image_def try_body_def Let_def)

lemma download_image_duplicate:
  assumes "admitted e url r"
    and "fn = choose_filename e url (declared_content_type r)"
    and "temp = path_join od fn @ ''.tmp''"
    and "staged_cleanly e r temp"
    and "\<not> io_fault e (OpRemove temp)"
    and "sha256_hex e (concat (chunks r)) \<in> hashes st"
  shows "download_image e url od st =
           (Inr False, st\<lparr>files := AList.delete temp (files st),
                           log := log st @ [DuplicateImage fn]\<rparr>)"
proof -
  have sb: "stage_body e temp r (files st) = (None, AList.update temp (concat (chunks r)) (files st))"
    using assms(4) by (intro stage_body_ok) (simp_all add: staged_cleanly_def)
  have "try_body e url od st = stage_and_commit e od r fn st"
    using assms(1,2) by (simp add: try_body_admitted)
  also have "\<dots> = (Inr False, Some temp,
                    st\<lparr>files := AList.delete temp (files st), log := log st @ [DuplicateImage fn]\<rparr>)"
    unfolding assms(3)
    by (rule stage_and_commit_dup [OF sb [unfolded assms(3)]])
       (use assms in \<open>simp_all add: staged_cleanly_def\<close>)
  finally show ?thesis by (rule download_image_Inr)
qed

lemma download_image_fresh:
  assumes "admitted e url r"
    and "fn = choose_filename e url (declared_content_type r)"
    and "temp = path_join od fn @ ''.tmp''"
    and "staged_cleanly e r temp"
    and "\<not> io_fault e (OpRename temp (path_join od fn))"
    and "sha256_hex e (concat (chunks r)) \<notin> hashes st"
  shows "download_image e url od st =
           (Inr True, st\<lparr>files := AList.update (path_join od fn) (concat (chunks r))
                                     (AList.delete temp (files st)),
                          hashes := insert (sha256_hex e (concat (chunks r))) (hashes st),
                          log := log st @ [Fetched fn, SavedTo (path_join od fn)]\<rparr>)"
proof -
  have sb: "stage_body e temp r (files st) = (None, AList.update temp (concat (chunks r)) (files st))"
    using assms(4) by (intro stage_body_ok) (simp_all add: staged_cleanly_def)
  have "try_body e url od st = stage_and_commit e od r fn st"
    using assms(1,2) by (simp add: try_body_admitted)
  also have "\<dots> = (Inr True, Some temp,
                    st\<lparr>files := AList.update (path_join od fn) (concat (chunks r))
                                     (AList.delete temp (files st)),
                          hashes := insert (sha256_hex e (concat (chunks r))) (hashes st),
                          log := log st @ [Fetched fn, SavedTo (path_join od fn)]\<rparr>)"
    unfolding assms(3)
    by (rule stage_and_commit_new [OF sb [unfolded assms(3)]])
       (use assms in \<open>simp_all add: staged_cleanly_def\<close>)
  finally show ?thesis by (rule download_image_Inr)
qed

lemma try_body_True_commit:
  assumes "try_body e url od st = (Inr True, tmp, st')"
  shows "\<exists>r. admitted e url r \<and>
           stage_and_commit e od r (choose_filename e url (declared_content_type r)) st =
             (Inr True, tmp, st')"
  using assms
  by (auto simp: try_body_def admitted_def Let_def
           split: fetch.splits if_splits sum.splits bool.splits)

lemma download_image_True_explicit:
  assumes "download_image e url od st = (Inr True, st')"
  shows "\<exists>r fs1. admitted e url r \<and>
           stage_body e (path_join od (choose_filename e url (declared_content_type r)) @ ''.tmp'')
             r (files st) = (None, fs1) \<and>
           \<not> io_fault e (OpRead
               (path_join od (choose_filename e url (declared_content_type r)) @ ''.tmp'')) \<and>
           sha256_hex e (concat (chunks r)) \<notin> hashes st \<and>
           st' = st\<lparr>files := AList.update
                               (path_join od (choose_filename e url (declared_content_type r)))
                               (concat (chunks r))
                               (AList.delete
                                  (path_join od (choose_filename e url (declared_content_type r))
                                     @ ''.tmp'') (files st)),
                     hashes := insert (sha256_hex e (concat (chunks r))) (hashes st),
                     log := log st @
                       [Fetched (choose_filename e url (declared_content_type r)),
                        SavedTo (path_join od (choose_filename e url (declared_content_type r)))]\<rparr>"
proof -
  from assms obtain tmp where "try_body e url od st = (Inr True, tmp, st')"
    by (auto dest: download_image_True)
  then obtain r where a: "admitted e url r"
    and c: "stage_and_commit e od r (choose_filename e url (declared_content_type r)) st =
              (Inr True, tmp, st')"
    by (auto dest: try_body_True_commit)
  let ?fn = "choose_filename e url (declared_content_type r)"
  from stage_and_commit_True [OF c] obtain fs1 where
    sb: "stage_body e (path_join od ?fn @ ''.tmp'') r (files st) = (None, fs1)"
    and rd: "\<not> io_fault e (OpRead (path_join od ?fn @ ''.tmp''))"
    and rn: "\<not> io_fault e (OpRename (path_join od ?fn @ ''.tmp'') (path_join od ?fn))"
    and nin: "sha256_hex e (concat (chunks r)) \<notin> hashes st"
    by blast
  from stage_and_commit_new [OF sb rd rn nin] c
  have "st' = st\<lparr>files := AList.update (path_join od ?fn) (concat (chunks r))
                              (AList.delete (path_join od ?fn @ ''.tmp'') (files st)),
                  hashes := insert (sha256_hex e (concat (chunks r))) (hashes st),
                  log := log st @ [Fetched ?fn, SavedTo (path_join od ?fn)]\<rparr>"
    by simp
  with a sb rd nin show ?thesis by blast
qed

lemma choose_filename_spec: "choose_filename e url ct = spec_filename e url ct"
  by (cases "guess_extension e ct") (simp_all add: choose_filename_def spec_filename_def Let_def)

lemma basename_path_join:
  assumes "CHR ''/'' \<notin> set name"
  shows "basename (path_join od name) = name"
proof -
  have nh: "\<not> (name \<noteq> [] \<and> hd name = CHR ''/'')"
    using assms by (cases name) auto
  have tw: "takeWhile (\<lambda>c. c \<noteq> CHR ''/'') (rev name @ ys) =
            rev name @ takeWhile (\<lambda>c. c \<noteq> CHR ''/'') ys" for ys
    using assms by (intro takeWhile_append2) auto
  show ?thesis
  proof (cases "od = [] \<or> last od = CHR ''/''")
    case True
    then have "takeWhile (\<lambda>c. c \<noteq> CHR ''/'') (rev od) = []"
      by (cases od rule: rev_cases) auto
    with True nh show ?thesis
      by (auto simp: path_join_def basename_def tw)
  next
    case False
    with nh show ?thesis
      by (auto simp: path_join_def basename_def tw)
  qed
qed

lemma load_hashes_mono:
  "load_hashes e od fs ns acc = Inr hs \<Longrightarrow> acc \<subseteq> hs"
proof (induction ns arbitrary: acc)
  case Nil then show ?case by simp
next
  case (Cons n ns)
  then show ?case
    by (auto simp: Let_def split: if_splits sum.splits dest!: Cons.IH)
qed

lemma load_hashes_covers:
  "load_hashes e od fs ns acc = Inr hs \<Longrightarrow> n \<in> set ns \<Longrightarrow>
   map_of fs (path_join od n) = Some content \<Longrightarrow> sha256_hex e content \<in> hs"
proof (induction ns arbitrary: acc)
  case Nil then show ?case by simp
next
  case (Cons m ns)
  show ?case
  proof (cases "m = n")
    case True
    with Cons.prems(3) have f: "os_path_isfile (path_join od m) fs"
      by (simp add: os_path_isfile_def)
    with Cons.prems(1) obtain h where
      h: "calculate_file_hash e (path_join od m) fs = Inr h"
      and l: "load_hashes e od fs ns (insert h acc) = Inr hs"
      by (auto simp: Let_def split: sum.splits)
    from h True Cons.prems(3) have "h = sha256_hex e content"
      by (auto dest!: calculate_file_hash_Inr)
    with load_hashes_mono [OF l] show ?thesis by auto
  next
    case False
    with Cons.prems(2) have n: "n \<in> set ns" by simp
    from Cons.prems(1) obtain acc' where "load_hashes e od fs ns acc' = Inr hs"
      by (auto simp: Let_def split: if_splits sum.splits)
    from Cons.IH [OF this n Cons.prems(3)] show ?thesis .
  qed
qed

lemma load_hashes_only:
  "load_hashes e od fs ns acc = Inr hs \<Longrightarrow> h \<in> hs \<Longrightarrow>
   h \<in> acc \<or> (\<exists>n \<in> set ns. \<exists>content. map_of fs (path_join od n) = Some content \<and>
                   h = sha256_hex e content)"
proof (induction ns arbitrary: acc)
  case Nil then show ?case by simp
next
  case (Cons m ns)
  show ?case
  proof (cases "os_path_isfile (path_join od m) fs")
    case True
    with Cons.prems(1) obtain h' where
      h': "calculate_file_hash e (path_join od m) fs = Inr h'"
      and l: "load_hashes e od fs ns (insert h' acc) = Inr hs"
      by (auto simp: Let_def split: sum.splits)
    from h' obtain c where c: "map_of fs (path_join od m) = Some c" "h' = sha256_hex e c"
      by (auto dest!: calculate_file_hash_Inr)
    from Cons.IH [OF l Cons.prems(2)] c show ?thesis by auto
  next
    case False
    with Cons.prems(1) have "load_hashes e od fs ns acc = Inr hs" by (simp add: Let_def)
    from Cons.IH [OF this Cons.prems(2)] show ?thesis by auto
  qed
qed

lemma os_listdir_member:
  assumes "map_of fs (path_join od name) = Some content"
    and "name \<noteq> []" and "CHR ''/'' \<notin> set name"
  shows "name \<in> set (os_listdir od fs)"
proof -
  from assms(1) have "(path_join od name, content) \<in> set fs" by (rule map_of_SomeD)
  then have "basename (path_join od name) \<in> set (map (\<lambda>(p, _). basename p) fs)"
    by force
  with assms show ?thesis
    by (simp add: os_listdir_def basename_path_join)
qed

lemma valid_types_no_suffix:
  assumes "t \<in> set valid_types" "t' \<in> set valid_types" "x \<noteq> []"
  shows "t @ x \<noteq> t'"
  using assms by (auto simp: valid_types_def)

lemma valid_types_no_prefix:
  assumes "t \<in> set valid_types" "t' \<in> set valid_types" "x \<noteq> []"
  shows "x @ t \<noteq> t'"
proof
  assume "x @ t = t'"
  then have "rev t @ rev x = rev t'" by (metis rev_append)
  with assms show False by (auto simp: valid_types_def)
qed

text \<open>What \<^verbatim>\<open>int\<close> refuses: a length wrapped in the separators 28 and 31, and more
  digits than the interpreter converts. The first makes the call end in the exception
  of the handler.\<close>

lemma py_int_separator_raises: "py_int (CHR 0x1C # ''20000000'' @ [CHR 0x1F]) = None"
  by (simp add: string_evals)

lemma py_strip_digits:
  assumes "\<forall>c \<in> set s. is_digit c"
  shows "py_strip s = s"
proof -
  have n: "\<not> py_isspace c" if "is_digit c" for c
    using that by (auto simp: is_digit_def py_isspace_def Let_def)
  have d: "dropWhile py_isspace t = t" if "\<forall>c \<in> set t. is_digit c" for t
    using that n by (cases t) auto
  from assms have "\<forall>c \<in> set (rev s). is_digit c" by simp
  with d [of s] d [of "rev s"] assms show ?thesis by (simp add: py_strip_def)
qed

lemma py_int_digit_limit:
  assumes "\<forall>c \<in> set s. is_digit c" and "length s > 4300"
  shows "py_int s = None"
proof -
  from assms(2) obtain c r where s: "s = c # r" by (cases s) auto
  with assms(1) have "is_digit c" by simp
  then have c: "c \<noteq> CHR ''-''" "c \<noteq> CHR ''+''"
    by (auto simp: is_digit_def)
  from assms(1) have "filter is_digit s = s" by (simp add: filter_id_conv)
  with assms(2) have "py_unsigned s = None"
    by (simp add: py_unsigned_def int_max_str_digits_def)
  with c s py_strip_digits [OF assms(1)] show ?thesis
    by (simp add: py_int_def)
qed

lemma separator_length_escapes:
  "download_image
     (cat_env\<lparr>http_get := (\<lambda>u. Response
        (cat_response\<lparr>content_length_hdr := Some (CHR 0x1C # ''20000000'' @ [CHR 0x1F])\<rparr>))\<rparr>)
     cat_url ''Fetched_Images'' empty_state =
   (Inl UnboundLocalError, empty_state\<lparr>log := [ProcessingError cat_url ValueError]\<rparr>)"
  by (simp add: run_evals demo_defs string_evals)

section \<open>The claims\<close>

subsection \<open>C1\<close>

text \<open>
  Claim C1, as amended. When the hash of the staged download is already in
  \<^verbatim>\<open>existing_hashes\<close>, and the staging, the reading back and the removal meet no
  error, \<^verbatim>\<open>download_image\<close> prints the duplicate message and returns \<^verbatim>\<open>False\<close>, the
  temporary file is gone afterwards, the set of hashes is unchanged, and every path
  other than the temporary path holds what it held before.
\<close>

theorem duplicate_is_discarded:
  assumes "admitted e url r"
    and "fn = choose_filename e url (declared_content_type r)"
    and "temp = path_join od fn @ ''.tmp''"
    and "staged_cleanly e r temp"
    and "\<not> io_fault e (OpRemove temp)"
    and "sha256_hex e (concat (chunks r)) \<in> hashes st"
  shows "\<exists>st'. download_image e url od st = (Inr False, st') \<and>
           log st' = log st @ [DuplicateImage fn] \<and>
           hashes st' = hashes st \<and>
           map_of (files st') temp = None \<and>
           (\<forall>p. p \<noteq> temp \<longrightarrow> map_of (files st') p = map_of (files st) p)"
  using download_image_duplicate [OF assms] by (simp add: delete_conv')

theorem duplicate_is_discarded_witness:
  "admitted cat_env cat_url cat_response \<and>
   staged_cleanly cat_env cat_response ''Fetched_Images/cat.png.tmp'' \<and>
   sha256_hex cat_env (concat (chunks cat_response)) \<in> hashes cat_state \<and>
   (\<exists>st'. download_image cat_env cat_url ''Fetched_Images'' cat_state = (Inr False, st') \<and>
      log st' = log cat_state @ [DuplicateImage ''cat.png''] \<and>
      hashes st' = hashes cat_state \<and>
      map_of (files st') ''Fetched_Images/cat.png.tmp'' = None \<and>
      map_of (files st') ''Fetched_Images/cat.png'' = Some [137, 80, 78, 71])"
proof -
  have a: "admitted cat_env cat_url cat_response"
    by (simp add: admitted_def demo_defs declared_content_type_def declared_too_large_def string_evals)
  have f: "''cat.png'' = choose_filename cat_env cat_url (declared_content_type cat_response)"
    by (simp add: choose_filename_def demo_defs declared_content_type_def string_evals)
  have t: "''Fetched_Images/cat.png.tmp'' = path_join ''Fetched_Images'' ''cat.png'' @ ''.tmp''"
    by (simp add: path_join_def)
  have s: "staged_cleanly cat_env cat_response ''Fetched_Images/cat.png.tmp''"
    by (simp add: staged_cleanly_def demo_defs)
  have r: "\<not> io_fault cat_env (OpRemove ''Fetched_Images/cat.png.tmp'')"
    by (simp add: demo_defs)
  have h: "sha256_hex cat_env (concat (chunks cat_response)) \<in> hashes cat_state"
    by (simp add: demo_defs)
  from duplicate_is_discarded [OF a f t s r h]
  obtain st' where d: "download_image cat_env cat_url ''Fetched_Images'' cat_state = (Inr False, st')"
    and l: "log st' = log cat_state @ [DuplicateImage ''cat.png'']"
    and hs: "hashes st' = hashes cat_state"
    and g: "map_of (files st') ''Fetched_Images/cat.png.tmp'' = None"
    and k: "\<forall>p. p \<noteq> ''Fetched_Images/cat.png.tmp'' \<longrightarrow>
              map_of (files st') p = map_of (files cat_state) p"
    by blast
  from k have "map_of (files st') ''Fetched_Images/cat.png'' =
               map_of (files cat_state) ''Fetched_Images/cat.png''"
    by simp
  then have c: "map_of (files st') ''Fetched_Images/cat.png'' = Some [137, 80, 78, 71]"
    by (simp add: cat_state_def)
  from a s h d l hs g c show ?thesis by blast
qed

text \<open>
  Why C1 needed amending: a file already kept under the name \<^verbatim>\<open>cat.png.tmp\<close> lies on the
  staging path of \<^verbatim>\<open>cat.png\<close>. Fetching \<^verbatim>\<open>cat.png\<close> with the same bytes overwrites it,
  finds the duplicate and removes it.
\<close>

theorem duplicate_destroys_file_at_staging_path:
  "download_image cat_env tmp_url ''Fetched_Images'' empty_state = (Inr True, kept_state) \<and>
   map_of (files kept_state) ''Fetched_Images/cat.png.tmp'' = Some [137, 80, 78, 71] \<and>
   download_image cat_env cat_url ''Fetched_Images'' kept_state =
     (Inr False, kept_state\<lparr>files := [], log := log kept_state @ [DuplicateImage ''cat.png'']\<rparr>)"
  by (simp add: run_evals demo_defs string_evals)

subsection \<open>C2\<close>

text \<open>
  Claim C2. For an admitted response whose body is staged without error and whose hash
  is not yet known, \<^verbatim>\<open>download_image\<close> returns \<^verbatim>\<open>True\<close>; the resulting files are what
  the single step \<^verbatim>\<open>os.rename\<close> makes of the staged file system, so the final path
  holds the body and the temporary path is gone; the hash has been inserted; and the
  final name is printed.
\<close>

theorem fresh_image_is_promoted:
  assumes "admitted e url r"
    and "fn = choose_filename e url (declared_content_type r)"
    and "temp = path_join od fn @ ''.tmp''"
    and "staged_cleanly e r temp"
    and "\<not> io_fault e (OpRename temp (path_join od fn))"
    and "sha256_hex e (concat (chunks r)) \<notin> hashes st"
  shows "\<exists>st'. download_image e url od st = (Inr True, st') \<and>
           os_rename e temp (path_join od fn)
             (AList.update temp (concat (chunks r)) (files st)) = Inr (files st') \<and>
           map_of (files st') (path_join od fn) = Some (concat (chunks r)) \<and>
           map_of (files st') temp = None \<and>
           hashes st' = insert (sha256_hex e (concat (chunks r))) (hashes st) \<and>
           log st' = log st @ [Fetched fn, SavedTo (path_join od fn)]"
  using download_image_fresh [OF assms] assms(3,5)
  by (simp add: os_rename_def update_conv' delete_conv' delete_update_same)

theorem fresh_image_is_promoted_witness:
  "admitted cat_env cat_url cat_response \<and>
   staged_cleanly cat_env cat_response ''Fetched_Images/cat.png.tmp'' \<and>
   sha256_hex cat_env (concat (chunks cat_response)) \<notin> hashes empty_state \<and>
   (\<exists>st'. download_image cat_env cat_url ''Fetched_Images'' empty_state = (Inr True, st') \<and>
      map_of (files st') ''Fetched_Images/cat.png'' = Some [137, 80, 78, 71] \<and>
      map_of (files st') ''Fetched_Images/cat.png.tmp'' = None \<and>
      hashes st' = {''aaaa''} \<and>
      log st' = [Fetched ''cat.png'', SavedTo ''Fetched_Images/cat.png''])"
proof -
  have a: "admitted cat_env cat_url cat_response"
    by (simp add: admitted_def demo_defs declared_content_type_def declared_too_large_def string_evals)
  have f: "''cat.png'' = choose_filename cat_env cat_url (declared_content_type cat_response)"
    by (simp add: choose_filename_def demo_defs declared_content_type_def string_evals)
  have t: "''Fetched_Images/cat.png.tmp'' = path_join ''Fetched_Images'' ''cat.png'' @ ''.tmp''"
    by (simp add: path_join_def)
  have s: "staged_cleanly cat_env cat_response ''Fetched_Images/cat.png.tmp''"
    by (simp add: staged_cleanly_def demo_defs)
  have r: "\<not> io_fault cat_env (OpRename ''Fetched_Images/cat.png.tmp''
             (path_join ''Fetched_Images'' ''cat.png''))"
    by (simp add: demo_defs)
  have h: "sha256_hex cat_env (concat (chunks cat_response)) \<notin> hashes empty_state"
    by (simp add: demo_defs)
  have p: "path_join ''Fetched_Images'' ''cat.png'' = ''Fetched_Images/cat.png''"
    by (simp add: path_join_def)
  have c: "concat (chunks cat_response) = [137, 80, 78, 71]"
    by (simp add: demo_defs)
  have d: "sha256_hex cat_env [137, 80, 78, 71] = ''aaaa''"
    by (simp add: demo_defs)
  from fresh_image_is_promoted [OF a f t s r h]
  obtain st' where
    "download_image cat_env cat_url ''Fetched_Images'' empty_state = (Inr True, st')"
    "map_of (files st') ''Fetched_Images/cat.png'' = Some [137, 80, 78, 71]"
    "map_of (files st') ''Fetched_Images/cat.png.tmp'' = None"
    "hashes st' = {''aaaa''}"
    "log st' = [Fetched ''cat.png'', SavedTo ''Fetched_Images/cat.png'']"
    unfolding p c d by (auto simp: empty_state_def)
  with a s h show ?thesis by blast
qed

subsection \<open>C3\<close>

text \<open>
  Claim C3. \<^verbatim>\<open>is_valid_image_content_type\<close> accepts exactly the strings that equal an
  entry of the allow-list when compared case-insensitively; the empty string, which
  also stands for a missing header, is not accepted; and a response whose declared type
  is not accepted makes \<^verbatim>\<open>download_image\<close> print the invalid-content-type message and
  return \<^verbatim>\<open>False\<close> with files and hashes untouched.
\<close>

theorem content_type_allow_list:
  "(is_valid_image_content_type ct \<longleftrightarrow> (\<exists>t \<in> set valid_types. ci_equal ct t)) \<and>
   \<not> is_valid_image_content_type [] \<and>
   (http_get e url = Response r \<and> \<not> (400 \<le> status_code r \<and> status_code r < 600) \<and>
    \<not> is_valid_image_content_type (declared_content_type r) \<longrightarrow>
      download_image e url od st =
        (Inr False, st\<lparr>log := log st @ [InvalidContentType url (declared_content_type r)]\<rparr>))"
proof -
  have "is_valid_image_content_type ct \<longleftrightarrow> (\<exists>t \<in> set valid_types. ci_equal ct t)"
    by (auto simp: is_valid_image_content_type_def ci_equal_def str_lower_valid_types)
  then show ?thesis
    using is_valid_image_content_type_empty download_image_invalid_type [of e url r od st]
    by blast
qed

theorem content_type_allow_list_witness:
  "is_valid_image_content_type ''IMAGE/Jpeg'' \<and> ci_equal ''IMAGE/Jpeg'' ''image/jpeg'' \<and>
   http_get html_env cat_url = Response html_response \<and>
   \<not> (400 \<le> status_code html_response \<and> status_code html_response < 600) \<and>
   \<not> is_valid_image_content_type (declared_content_type html_response) \<and>
   download_image html_env cat_url ''Fetched_Images'' empty_state =
     (Inr False, empty_state\<lparr>log := [InvalidContentType cat_url ''text/html'']\<rparr>)"
proof -
  have v: "ci_equal ''IMAGE/Jpeg'' ''image/jpeg''"
    by (simp add: ci_equal_def string_evals)
  have m: "''image/jpeg'' \<in> set valid_types"
    by (simp add: valid_types_def)
  have g: "http_get html_env cat_url = Response html_response"
    by (simp add: demo_defs)
  have s: "\<not> (400 \<le> status_code html_response \<and> status_code html_response < 600)"
    by (simp add: demo_defs)
  have n: "\<not> is_valid_image_content_type (declared_content_type html_response)"
    by (simp add: demo_defs declared_content_type_def string_evals)
  have d: "declared_content_type html_response = ''text/html''"
    by (simp add: demo_defs declared_content_type_def)
  note T = content_type_allow_list [of "''IMAGE/Jpeg''" html_env cat_url html_response
      "''Fetched_Images''" empty_state]
  from T v m have 1: "is_valid_image_content_type ''IMAGE/Jpeg''" by blast
  from T g s n have "download_image html_env cat_url ''Fetched_Images'' empty_state =
     (Inr False, empty_state\<lparr>log := log empty_state @
        [InvalidContentType cat_url (declared_content_type html_response)]\<rparr>)" by blast
  then have 2: "download_image html_env cat_url ''Fetched_Images'' empty_state =
     (Inr False, empty_state\<lparr>log := [InvalidContentType cat_url ''text/html'']\<rparr>)"
    by (simp add: d empty_state_def)
  from 1 v g s n 2 show ?thesis by blast
qed

subsection \<open>C4\<close>

text \<open>
  Claim C4, as amended. A response whose \<^verbatim>\<open>content-length\<close> header is one that
  \<^verbatim>\<open>int\<close> converts (decimal digits, at most 4300 of them, with at most a sign and
  surrounding blanks) to a number above 10,485,760 is rejected with nothing written:
  with the file-too-large message when the declared type is on the allow-list, and with
  the invalid-content-type message otherwise, since the type is checked first.
\<close>

theorem oversized_declared_length_rejected:
  assumes "http_get e url = Response r"
    and "\<not> (400 \<le> status_code r \<and> status_code r < 600)"
    and "content_length_hdr r = Some cl"
    and "py_int cl = Some n"
    and "n > 10485760"
  shows "download_image e url od st =
           (Inr False,
            st\<lparr>log := log st @
                 [if is_valid_image_content_type (declared_content_type r)
                  then FileTooLarge url (Some cl)
                  else InvalidContentType url (declared_content_type r)]\<rparr>)"
proof -
  from assms(4) have "cl \<noteq> []" by (auto simp: py_int_def py_strip_def)
  with assms(3,4,5) have "declared_too_large r = Inr True"
    by (simp add: declared_too_large_def)
  with assms(1,2,3) show ?thesis
    by (auto simp: download_image_def try_body_def Let_def)
qed

theorem oversized_declared_length_rejected_witness:
  "http_get large_env cat_url = Response large_response \<and>
   \<not> (400 \<le> status_code large_response \<and> status_code large_response < 600) \<and>
   content_length_hdr large_response = Some ''20000000'' \<and>
   py_int ''20000000'' = Some 20000000 \<and> (20000000 :: int) > 10485760 \<and>
   download_image large_env cat_url ''Fetched_Images'' empty_state =
     (Inr False, empty_state\<lparr>log := [FileTooLarge cat_url (Some ''20000000'')]\<rparr>)"
proof -
  have g: "http_get large_env cat_url = Response large_response"
    by (simp add: demo_defs)
  have s: "\<not> (400 \<le> status_code large_response \<and> status_code large_response < 600)"
    by (simp add: demo_defs)
  have c: "content_length_hdr large_response = Some ''20000000''"
    by (simp add: demo_defs)
  have p: "py_int ''20000000'' = Some 20000000"
    by (simp add: string_evals)
  have b: "(20000000 :: int) > 10485760" by simp
  have v: "is_valid_image_content_type (declared_content_type large_response)"
    by (simp add: demo_defs declared_content_type_def string_evals)
  from oversized_declared_length_rejected [OF g s c p b, of "''Fetched_Images''" empty_state] v
  have "download_image large_env cat_url ''Fetched_Images'' empty_state =
     (Inr False, empty_state\<lparr>log := [FileTooLarge cat_url (Some ''20000000'')]\<rparr>)"
    by (simp add: empty_state_def)
  with g s c p b show ?thesis by blast
qed

text \<open>
  Why C4 needed amending: a web page declaring twenty million bytes is rejected for
  its content type, not for its size.
\<close>

theorem oversized_html_not_reported_too_large:
  "declared_too_large html_response = Inr True \<and>
   download_image html_env cat_url ''Fetched_Images'' empty_state =
     (Inr False, empty_state\<lparr>log := [InvalidContentType cat_url ''text/html'']\<rparr>)"
  by (simp add: run_evals demo_defs string_evals)

subsection \<open>C5\<close>

text \<open>
  Claim C5 does not hold of the code. When the body stream breaks with a
  \<^verbatim>\<open>RequestException\<close> after the temporary file was written, the first handler returns
  without removing it: the call returns \<^verbatim>\<open>False\<close> and \<^verbatim>\<open>cat.png.tmp\<close> stays in the
  output directory.
\<close>

theorem broken_stream_leaves_tmp_file:
  "download_image broken_env cat_url ''Fetched_Images'' empty_state =
     (Inr False,
      \<lparr>files = [(''Fetched_Images/cat.png.tmp'', [137, 80, 78, 71])], hashes = {},
       log = [NetworkError cat_url RequestException]\<rparr>)"
  by (simp add: run_evals demo_defs string_evals)

subsection \<open>C6\<close>

text \<open>
  Claim C6 does not hold of the code. A \<^verbatim>\<open>content-length\<close> header that is not a number
  makes \<^verbatim>\<open>int\<close> raise \<^verbatim>\<open>ValueError\<close> before \<^verbatim>\<open>temp_filepath\<close> is assigned; the second
  handler then reads that variable, and \<^verbatim>\<open>UnboundLocalError\<close> leaves \<^verbatim>\<open>download_image\<close>.
\<close>

theorem malformed_length_escapes_handler:
  "download_image badlen_env cat_url ''Fetched_Images'' empty_state =
     (Inl UnboundLocalError,
      \<lparr>files = [], hashes = {}, log = [ProcessingError cat_url ValueError]\<rparr>)"
  by (simp add: run_evals demo_defs string_evals)

subsection \<open>C7\<close>

text \<open>
  Claim C7. Whenever \<^verbatim>\<open>download_image\<close> returns \<^verbatim>\<open>True\<close>, the name chosen by the code
  is the one the specification's rule gives, that name is printed, and the file of that
  name in the output directory holds the body.
\<close>

theorem final_filename_rule:
  assumes "download_image e url od st = (Inr True, st')"
  shows "\<exists>r. http_get e url = Response r \<and>
           choose_filename e url (declared_content_type r) =
             spec_filename e url (declared_content_type r) \<and>
           log st' = log st @
             [Fetched (spec_filename e url (declared_content_type r)),
              SavedTo (path_join od (spec_filename e url (declared_content_type r)))] \<and>
           map_of (files st') (path_join od (spec_filename e url (declared_content_type r))) =
             Some (concat (chunks r))"
proof -
  from download_image_True_explicit [OF assms] obtain r where
    a: "admitted e url r"
    and st': "st' = st\<lparr>files := AList.update
                               (path_join od (choose_filename e url (declared_content_type r)))
                               (concat (chunks r))
                               (AList.delete
                                  (path_join od (choose_filename e url (declared_content_type r))
                                     @ ''.tmp'') (files st)),
                     hashes := insert (sha256_hex e (concat (chunks r))) (hashes st),
                     log := log st @
                       [Fetched (choose_filename e url (declared_content_type r)),
                        SavedTo (path_join od (choose_filename e url (declared_content_type r)))]\<rparr>"
    by blast
  from a have g: "http_get e url = Response r" by (simp add: admitted_def)
  have l: "log st' = log st @
             [Fetched (spec_filename e url (declared_content_type r)),
              SavedTo (path_join od (spec_filename e url (declared_content_type r)))]"
    by (simp add: st' choose_filename_spec)
  have m: "map_of (files st') (path_join od (spec_filename e url (declared_content_type r))) =
             Some (concat (chunks r))"
    by (simp add: st' choose_filename_spec update_conv')
  from g l m choose_filename_spec [of e url "declared_content_type r"] show ?thesis by blast
qed

theorem final_filename_rule_witness:
  "download_image cat_env cat_url ''Fetched_Images'' empty_state = (Inr True, cat_state) \<and>
   spec_filename cat_env cat_url ''image/png'' = ''cat.png'' \<and>
   spec_filename cat_env ''https://example.com/'' ''image/png'' = ''image_20240101_120000.png'' \<and>
   spec_filename cat_env cat_url ''image/bmp'' = ''image_20240101_120000.jpg'' \<and>
   (\<exists>r. http_get cat_env cat_url = Response r \<and>
      log cat_state = log empty_state @
        [Fetched (spec_filename cat_env cat_url (declared_content_type r)),
         SavedTo (path_join ''Fetched_Images''
                    (spec_filename cat_env cat_url (declared_content_type r)))] \<and>
      map_of (files cat_state)
        (path_join ''Fetched_Images'' (spec_filename cat_env cat_url (declared_content_type r))) =
        Some (concat (chunks r)))"
proof -
  have d: "download_image cat_env cat_url ''Fetched_Images'' empty_state = (Inr True, cat_state)"
    by (simp add: run_evals demo_defs string_evals)
  have 1: "spec_filename cat_env cat_url ''image/png'' = ''cat.png''"
    by (simp add: spec_filename_def demo_defs string_evals)
  have 2: "spec_filename cat_env ''https://example.com/'' ''image/png'' = ''image_20240101_120000.png''"
    by (simp add: spec_filename_def demo_defs string_evals)
  have 3: "spec_filename cat_env cat_url ''image/bmp'' = ''image_20240101_120000.jpg''"
    by (simp add: spec_filename_def demo_defs string_evals)
  from final_filename_rule [OF d] d 1 2 3 show ?thesis by blast
qed

subsection \<open>C8\<close>

text \<open>
  Claim C8. If a first call for a URL returns \<^verbatim>\<open>True\<close>, a second call for the same URL
  with the same response (and a removal that does not fail) returns \<^verbatim>\<open>False\<close> with
  the duplicate message, leaves the hashes and the files as the first call left them,
  so that the only new file is the one final file; run through the loop of \<^verbatim>\<open>main\<close>,
  the two URLs count one success.
\<close>

theorem second_fetch_is_duplicate:
  assumes "download_image e url od st = (Inr True, st1)"
    and "http_get e url = Response r"
    and "fn = choose_filename e url (declared_content_type r)"
    and "\<not> io_fault e (OpRemove (path_join od fn @ ''.tmp''))"
  shows "\<exists>st2. download_image e url od st1 = (Inr False, st2) \<and>
           log st2 = log st1 @ [DuplicateImage fn] \<and>
           hashes st2 = hashes st1 \<and>
           map_of (files st2) = map_of (files st1) \<and>
           map_of (files st1) (path_join od fn) = Some (concat (chunks r)) \<and>
           dom (map_of (files st2)) =
             insert (path_join od fn) (dom (map_of (files st)) - {path_join od fn @ ''.tmp''}) \<and>
           download_all e od [url, url] 0 st = (Inr 1, st2)"
proof -
  let ?t = "path_join od fn @ ''.tmp''"
  let ?body = "concat (chunks r)"
  from download_image_True_explicit [OF assms(1)] assms(2,3) obtain fs1 where
    a: "admitted e url r"
    and sb: "stage_body e ?t r (files st) = (None, fs1)"
    and rd: "\<not> io_fault e (OpRead ?t)"
    and st1: "st1 = st\<lparr>files := AList.update (path_join od fn) ?body (AList.delete ?t (files st)),
                        hashes := insert (sha256_hex e ?body) (hashes st),
                        log := log st @ [Fetched fn, SavedTo (path_join od fn)]\<rparr>"
    by (auto simp: admitted_def)
  have sb1: "stage_body e ?t r (files st1) = (None, AList.update ?t ?body (files st1))"
    using sb by (rule stage_body_None_any)
  have h1: "sha256_hex e ?body \<in> hashes st1" by (simp add: st1)
  have "try_body e url od st1 = stage_and_commit e od r fn st1"
    using a assms(3) by (simp add: try_body_admitted)
  also have "\<dots> = (Inr False, Some ?t,
                    st1\<lparr>files := AList.delete ?t (files st1), log := log st1 @ [DuplicateImage fn]\<rparr>)"
    using sb1 rd assms(4) h1 by (rule stage_and_commit_dup)
  finally have d2: "download_image e url od st1 =
      (Inr False, st1\<lparr>files := AList.delete ?t (files st1), log := log st1 @ [DuplicateImage fn]\<rparr>)"
    by (rule download_image_Inr)
  let ?st2 = "st1\<lparr>files := AList.delete ?t (files st1), log := log st1 @ [DuplicateImage fn]\<rparr>"
  have m1: "map_of (files st1) = (map_of (files st))(?t := None, path_join od fn \<mapsto> ?body)"
    by (simp add: st1 update_conv' delete_conv')
  have tn: "map_of (files st1) ?t = None"
    by (simp add: m1)
  have m2: "map_of (files ?st2) = map_of (files st1)"
    using tn by (auto simp: delete_conv' fun_eq_iff)
  have dm: "dom (map_of (files ?st2)) = insert (path_join od fn) (dom (map_of (files st)) - {?t})"
    unfolding m2 m1 by auto
  have da: "download_all e od [url, url] 0 st = (Inr 1, ?st2)"
    using assms(1) d2 by simp
  have "download_image e url od st1 = (Inr False, ?st2) \<and>
           log ?st2 = log st1 @ [DuplicateImage fn] \<and>
           hashes ?st2 = hashes st1 \<and>
           map_of (files ?st2) = map_of (files st1) \<and>
           map_of (files st1) (path_join od fn) = Some ?body \<and>
           dom (map_of (files ?st2)) =
             insert (path_join od fn) (dom (map_of (files st)) - {?t}) \<and>
           download_all e od [url, url] 0 st = (Inr 1, ?st2)"
    using d2 m2 dm da by (simp add: m1)
  then show ?thesis by (rule exI)
qed

theorem second_fetch_is_duplicate_witness:
  "download_image cat_env cat_url ''Fetched_Images'' empty_state = (Inr True, cat_state) \<and>
   http_get cat_env cat_url = Response cat_response \<and>
   \<not> io_fault cat_env (OpRemove ''Fetched_Images/cat.png.tmp'') \<and>
   (\<exists>st2. download_image cat_env cat_url ''Fetched_Images'' cat_state = (Inr False, st2) \<and>
      log st2 = log cat_state @ [DuplicateImage ''cat.png''] \<and>
      hashes st2 = {''aaaa''} \<and>
      dom (map_of (files st2)) = {''Fetched_Images/cat.png''} \<and>
      download_all cat_env ''Fetched_Images'' [cat_url, cat_url] 0 empty_state = (Inr 1, st2))"
proof -
  have d: "download_image cat_env cat_url ''Fetched_Images'' empty_state = (Inr True, cat_state)"
    by (simp add: run_evals demo_defs string_evals)
  have g: "http_get cat_env cat_url = Response cat_response"
    by (simp add: demo_defs)
  have f: "''cat.png'' = choose_filename cat_env cat_url (declared_content_type cat_response)"
    by (simp add: choose_filename_def demo_defs declared_content_type_def string_evals)
  have p: "path_join ''Fetched_Images'' ''cat.png'' = ''Fetched_Images/cat.png''"
    by (simp add: path_join_def)
  have r: "\<not> io_fault cat_env (OpRemove (path_join ''Fetched_Images'' ''cat.png'' @ ''.tmp''))"
    by (simp add: demo_defs)
  have r': "\<not> io_fault cat_env (OpRemove ''Fetched_Images/cat.png.tmp'')"
    by (simp add: demo_defs)
  from second_fetch_is_duplicate [OF d g f r] obtain st2 where
    "download_image cat_env cat_url ''Fetched_Images'' cat_state = (Inr False, st2)"
    "log st2 = log cat_state @ [DuplicateImage ''cat.png'']"
    "hashes st2 = hashes cat_state"
    "dom (map_of (files st2)) =
       insert ''Fetched_Images/cat.png'' (dom (map_of (files empty_state)) - {''Fetched_Images/cat.png.tmp''})"
    "download_all cat_env ''Fetched_Images'' [cat_url, cat_url] 0 empty_state = (Inr 1, st2)"
    unfolding p by auto
  moreover have "hashes cat_state = {''aaaa''}" by (simp add: cat_state_def)
  moreover have "dom (map_of (files empty_state)) = {}" by (simp add: empty_state_def)
  ultimately show ?thesis using d g r' by auto
qed

subsection \<open>C9\<close>

text \<open>
  Claim C9. The set built at the start of \<^verbatim>\<open>main\<close> holds the hash of every file lying
  directly in the output directory, and nothing else; so a later fetch of an admitted
  response whose body has the hash of such a file is rejected as a duplicate, although
  nothing was downloaded before.
\<close>

theorem preexisting_file_blocks_duplicate:
  assumes "load_existing_hashes e od fs = Inr hs"
    and "map_of fs (path_join od name) = Some content"
    and "name \<noteq> []" and "CHR ''/'' \<notin> set name"
    and "admitted e url r"
    and "fn = choose_filename e url (declared_content_type r)"
    and "temp = path_join od fn @ ''.tmp''"
    and "staged_cleanly e r temp"
    and "\<not> io_fault e (OpRemove temp)"
    and "sha256_hex e (concat (chunks r)) = sha256_hex e content"
  shows "sha256_hex e content \<in> hs \<and>
         (\<forall>h \<in> hs. \<exists>n c. map_of fs (path_join od n) = Some c \<and> h = sha256_hex e c) \<and>
         download_image e url od \<lparr>files = fs, hashes = hs, log = []\<rparr> =
           (Inr False, \<lparr>files = AList.delete temp fs, hashes = hs, log = [DuplicateImage fn]\<rparr>)"
proof -
  from assms(1) have l: "load_hashes e od fs (os_listdir od fs) {} = Inr hs"
    by (simp add: load_existing_hashes_def)
  have n: "name \<in> set (os_listdir od fs)"
    using assms(2,3,4) by (rule os_listdir_member)
  have 1: "sha256_hex e content \<in> hs"
    using l n assms(2) by (rule load_hashes_covers)
  have 2: "\<forall>h \<in> hs. \<exists>n c. map_of fs (path_join od n) = Some c \<and> h = sha256_hex e c"
    using load_hashes_only [OF l] by blast
  from 1 assms(10) have "sha256_hex e (concat (chunks r)) \<in> hashes \<lparr>files = fs, hashes = hs, log = []\<rparr>"
    by simp
  from download_image_duplicate [OF assms(5,6,7,8,9) this]
  have 3: "download_image e url od \<lparr>files = fs, hashes = hs, log = []\<rparr> =
           (Inr False, \<lparr>files = AList.delete temp fs, hashes = hs, log = [DuplicateImage fn]\<rparr>)"
    by simp
  from 1 2 3 show ?thesis by blast
qed

theorem preexisting_file_blocks_duplicate_witness:
  "load_existing_hashes cat_env ''Fetched_Images'' old_files = Inr {''aaaa''} \<and>
   map_of old_files (path_join ''Fetched_Images'' ''A'') = Some [1, 2, 3, 4] \<and>
   admitted cat_env cat_url cat_response \<and>
   staged_cleanly cat_env cat_response ''Fetched_Images/cat.png.tmp'' \<and>
   sha256_hex cat_env (concat (chunks cat_response)) = sha256_hex cat_env [1, 2, 3, 4] \<and>
   download_image cat_env cat_url ''Fetched_Images''
       \<lparr>files = old_files, hashes = {''aaaa''}, log = []\<rparr> =
     (Inr False, \<lparr>files = old_files, hashes = {''aaaa''}, log = [DuplicateImage ''cat.png'']\<rparr>)"
proof -
  have l: "load_existing_hashes cat_env ''Fetched_Images'' old_files = Inr {''aaaa''}"
    by (simp add: load_existing_hashes_def os_listdir_def os_path_isfile_def Let_def
          calculate_file_hash_ok demo_defs string_evals)
  have m: "map_of old_files (path_join ''Fetched_Images'' ''A'') = Some [1, 2, 3, 4]"
    by (simp add: demo_defs string_evals)
  have ne: "''A'' \<noteq> []" and ns: "CHR ''/'' \<notin> set ''A''" by simp_all
  have a: "admitted cat_env cat_url cat_response"
    by (simp add: admitted_def demo_defs declared_content_type_def declared_too_large_def string_evals)
  have f: "''cat.png'' = choose_filename cat_env cat_url (declared_content_type cat_response)"
    by (simp add: choose_filename_def demo_defs declared_content_type_def string_evals)
  have t: "''Fetched_Images/cat.png.tmp'' = path_join ''Fetched_Images'' ''cat.png'' @ ''.tmp''"
    by (simp add: path_join_def)
  have s: "staged_cleanly cat_env cat_response ''Fetched_Images/cat.png.tmp''"
    by (simp add: staged_cleanly_def demo_defs)
  have r: "\<not> io_fault cat_env (OpRemove ''Fetched_Images/cat.png.tmp'')"
    by (simp add: demo_defs)
  have h: "sha256_hex cat_env (concat (chunks cat_response)) = sha256_hex cat_env [1, 2, 3, 4]"
    by (simp add: demo_defs)
  have d: "AList.delete ''Fetched_Images/cat.png.tmp'' old_files = old_files"
    by (simp add: demo_defs)
  from preexisting_file_blocks_duplicate [OF l m ne ns a f t s r h]
  have "download_image cat_env cat_url ''Fetched_Images''
       \<lparr>files = old_files, hashes = {''aaaa''}, log = []\<rparr> =
     (Inr False, \<lparr>files = old_files, hashes = {''aaaa''}, log = [DuplicateImage ''cat.png'']\<rparr>)"
    by (simp add: d)
  with l m a s h show ?thesis by blast
qed

subsection \<open>C10\<close>

text \<open>
  Claim C10. Appending or prepending anything to an accepted content type gives a
  rejected one; in particular \<^verbatim>\<open>image/png; charset=utf-8\<close> and \<^verbatim>\<open> image/png\<close> are
  rejected.
\<close>

theorem parameters_defeat_allow_list:
  "(is_valid_image_content_type ct \<and> extra \<noteq> [] \<longrightarrow>
      \<not> is_valid_image_content_type (ct @ extra) \<and>
      \<not> is_valid_image_content_type (extra @ ct)) \<and>
   \<not> is_valid_image_content_type ''image/png; charset=utf-8'' \<and>
   \<not> is_valid_image_content_type '' image/png''"
proof -
  have "\<not> is_valid_image_content_type (ct @ extra) \<and> \<not> is_valid_image_content_type (extra @ ct)"
    if v: "is_valid_image_content_type ct" and x: "extra \<noteq> []"
  proof -
    from v have t: "str_lower ct \<in> set valid_types"
      by (simp add: is_valid_image_content_type_def)
    from x have x': "str_lower extra \<noteq> []" by (simp add: str_lower_def)
    have "str_lower ct @ str_lower extra \<notin> set valid_types"
      using valid_types_no_suffix [OF t _ x'] by blast
    moreover have "str_lower extra @ str_lower ct \<notin> set valid_types"
      using valid_types_no_prefix [OF t _ x'] by blast
    ultimately show ?thesis
      by (simp add: is_valid_image_content_type_def str_lower_def)
  qed
  moreover have "\<not> is_valid_image_content_type ''image/png; charset=utf-8''"
    by (simp add: string_evals)
  moreover have "\<not> is_valid_image_content_type '' image/png''"
    by (simp add: string_evals)
  ultimately show ?thesis by blast
qed

theorem parameters_defeat_allow_list_witness:
  "is_valid_image_content_type ''image/png'' \<and> ''; charset=utf-8'' \<noteq> [] \<and>
   \<not> is_valid_image_content_type (''image/png'' @ ''; charset=utf-8'') \<and>
   \<not> is_valid_image_content_type (''; charset=utf-8'' @ ''image/png'')"
proof -
  have v: "is_valid_image_content_type ''image/png''"
    by (simp add: string_evals)
  have x: "''; charset=utf-8'' \<noteq> []" by simp
  from parameters_defeat_allow_list [of "''image/png''" "''; charset=utf-8''"] v x
  show ?thesis by blast
qed

end
